theory Spec2Isabelle
  imports Main "HOL-Library.Word"
begin

section \<open>Data model\<close>

text \<open>
  A byte of target-process memory is an 8-bit word. Addresses, offsets and the
  configuration constants are Python integers, hence \<open>int\<close>.
\<close>

type_synonym byte = "8 word"

text \<open>
  The exceptions the core can raise. \<open>RuntimeError\<close> is the one raised by
  \<open>ensure_attached\<close>; \<open>ValueError\<close> carries the unsupported field type;
  \<open>KeyError\<close> the field name missing from \<open>OFFSETS\<close>.
\<close>

datatype error =
    RuntimeError
  | KeyError string
  | ValueError string
  | IndexError
  | OverflowError
  | MemoryReadError
  | MemoryWriteError

subsection \<open>Python sequence primitives\<close>

text \<open>
  \<open>data[k]\<close> on a Python sequence: a negative index counts from the end, and an
  index outside \<open>[-len, len)\<close> raises IndexError.
\<close>

definition py_getitem :: "'a list \<Rightarrow> int \<Rightarrow> error + 'a" where
  "py_getitem xs k =
     (if 0 \<le> k \<and> k < int (length xs) then Inr (xs ! nat k)
      else if k < 0 \<and> - int (length xs) \<le> k then Inr (xs ! nat (int (length xs) + k))
      else Inl IndexError)"

text \<open>
  \<open>data[a:b]\<close>: each bound is shifted by the length when negative and then
  clamped to \<open>[0, len]\<close>; the slice never raises.
\<close>

definition py_bound :: "nat \<Rightarrow> int \<Rightarrow> nat" where
  "py_bound n a = (if a < 0 then nat (int n + a) else min (nat a) n)"

definition py_slice :: "'a list \<Rightarrow> int \<Rightarrow> int \<Rightarrow> 'a list" where
  "py_slice xs a b =
     take (py_bound (length xs) b - py_bound (length xs) a)
          (drop (py_bound (length xs) a) xs)"

subsection \<open>Byte-pattern matcher\<close>

text \<open>
  \<open>_matches_pattern(data, start, pattern_bytes)\<close> is
  \<open>all(b is None or data[start + i] == b for i, b in enumerate(pattern_bytes))\<close>.
  The generator is consumed left to right and \<open>all\<close> stops at the first false
  element; a wildcard position does not index the buffer at all. The counter
  \<open>i\<close> of \<open>enumerate\<close> is the third argument of the loop.
\<close>

fun matches_from :: "byte list \<Rightarrow> int \<Rightarrow> int \<Rightarrow> byte option list \<Rightarrow> error + bool" where
  "matches_from data start i [] = Inr True"
| "matches_from data start i (None # bs) = matches_from data start (i + 1) bs"
| "matches_from data start i (Some b # bs) =
     (case py_getitem data (start + i) of
        Inl e \<Rightarrow> Inl e
      | Inr d \<Rightarrow> if d = b then matches_from data start (i + 1) bs else Inr False)"

definition matches_pattern :: "byte list \<Rightarrow> int \<Rightarrow> byte option list \<Rightarrow> error + bool" where
  "matches_pattern data start pattern_bytes = matches_from data start 0 pattern_bytes"

subsection \<open>Configuration\<close>

text \<open>
  The module \<open>config\<close> supplies the constants the core imports. They are taken
  as a parameter: \<open>OFFSETS\<close> maps a field name to its \<open>"offset"\<close> and
  \<open>"type"\<close> entries (an association list in declaration order, since
  \<open>get_character_data\<close> iterates over it).
\<close>

record field_info =
  offset :: int
  ftype :: string

record config =
  FAST_SCAN :: bool
  FAST_SCAN_START_ADDRESS :: int
  OFFSETS :: "(string \<times> field_info) list"
  PADDING_LENGTH :: int
  PRECEDING_ZEROES :: int
  STRUCT_SIZE :: int

text \<open>
  The signature template is well formed when its three parts have the lengths
  their names say: the padding and the preceding run are not negative, and the
  flag byte plus the padding fit into one record.
\<close>

definition config_ok :: "config \<Rightarrow> bool" where
  "config_ok cfg \<longleftrightarrow>
     0 \<le> PRECEDING_ZEROES cfg \<and> 0 \<le> PADDING_LENGTH cfg \<and>
     PADDING_LENGTH cfg < STRUCT_SIZE cfg"

subsection \<open>The attached process\<close>

text \<open>
  \<open>memory_structs\<close>: the constants, and the fields of MEMORY_BASIC_INFORMATION
  the scanner reads. \<open>RegionSize\<close> is a \<open>c_size_t\<close>, \<open>State\<close> and \<open>Protect\<close>
  are \<open>c_ulong\<close>: unsigned, so natural numbers.
\<close>

definition MEM_COMMIT :: nat where "MEM_COMMIT = 0x1000"
definition PAGE_READWRITE :: nat where "PAGE_READWRITE = 0x04"
definition PAGE_EXECUTE_READWRITE :: nat where "PAGE_EXECUTE_READWRITE = 0x40"

record MEMORY_BASIC_INFORMATION =
  RegionSize :: nat
  State :: nat
  Protect :: nat

text \<open>
  What the handle \<open>pm\<close> gives access to: the bytes of the target (an address
  that cannot be accessed holds \<open>None\<close>), the answer of \<open>VirtualQueryEx\<close> at
  an address (\<open>None\<close> when the call returns 0), and the two bounds of
  \<open>GetSystemInfo\<close>.
\<close>

record process =
  memory :: "int \<Rightarrow> byte option"
  VirtualQueryEx :: "int \<Rightarrow> MEMORY_BASIC_INFORMATION option"
  lpMinimumApplicationAddress :: int
  lpMaximumApplicationAddress :: int

record GameProcess =
  pm :: "process option"
  process_name :: string

text \<open>Values passed to and returned by the field codec: Python ints and bools.\<close>

datatype pyval = PyInt int | PyBool bool

fun truthy :: "pyval \<Rightarrow> bool" where
  "truthy (PyInt n) = (n \<noteq> 0)"
| "truthy (PyBool b) = b"

fun as_int :: "pyval \<Rightarrow> int" where
  "as_int (PyInt n) = n"
| "as_int (PyBool b) = (if b then 1 else 0)"

subsection \<open>Memory primitives of the handle\<close>

definition read_uchar :: "process \<Rightarrow> int \<Rightarrow> error + int" where
  "read_uchar p address =
     (case memory p address of None \<Rightarrow> Inl MemoryReadError | Some b \<Rightarrow> Inr (uint b))"

text \<open>The value is converted by \<open>ctypes.c_ubyte\<close>, which keeps the low eight bits.\<close>

definition write_uchar :: "process \<Rightarrow> int \<Rightarrow> int \<Rightarrow> error + process" where
  "write_uchar p address v =
     (case memory p address of
        None \<Rightarrow> Inl MemoryWriteError
      | Some _ \<Rightarrow> Inr (p\<lparr>memory := (memory p)(address := Some (word_of_int v))\<rparr>))"

definition read_bytes :: "process \<Rightarrow> int \<Rightarrow> int \<Rightarrow> error + byte list" where
  "read_bytes p address n =
     (if list_all (\<lambda>a. memory p a \<noteq> None) [address .. address + n - 1]
      then Inr (map (\<lambda>a. the (memory p a)) [address .. address + n - 1])
      else Inl MemoryReadError)"

fun store_bytes :: "(int \<Rightarrow> byte option) \<Rightarrow> int \<Rightarrow> byte list \<Rightarrow> (int \<Rightarrow> byte option)" where
  "store_bytes m a [] = m"
| "store_bytes m a (b # bs) = store_bytes (m(a := Some b)) (a + 1) bs"

definition write_bytes :: "process \<Rightarrow> int \<Rightarrow> byte list \<Rightarrow> int \<Rightarrow> error + process" where
  "write_bytes p address bs n =
     (if list_all (\<lambda>a. memory p a \<noteq> None) [address .. address + n - 1]
      then Inr (p\<lparr>memory := store_bytes (memory p) address (take (nat n) bs)\<rparr>)
      else Inl MemoryWriteError)"

subsection \<open>Integer encodings\<close>

text \<open>
  \<open>value.to_bytes(n, "big", signed=True)\<close> raises OverflowError outside the
  two's-complement range; \<open>int.from_bytes(raw, "big", signed=True)\<close>.
\<close>

definition to_bytes_big_signed :: "int \<Rightarrow> nat \<Rightarrow> error + byte list" where
  "to_bytes_big_signed v n =
     (if - (2 ^ (8 * n - 1)) \<le> v \<and> v < 2 ^ (8 * n - 1) \<and> 0 < n
      then Inr (map (\<lambda>k. word_of_int (v div 2 ^ (8 * (n - 1 - k)))) [0 ..< n])
      else if v = 0 \<and> n = 0 then Inr []
      else Inl OverflowError)"

definition from_bytes_big_unsigned :: "byte list \<Rightarrow> int" where
  "from_bytes_big_unsigned raw = foldl (\<lambda>acc b. acc * 256 + uint b) 0 raw"

definition from_bytes_big_signed :: "byte list \<Rightarrow> int" where
  "from_bytes_big_signed raw =
     (if raw \<noteq> [] \<and> 2 ^ (8 * length raw - 1) \<le> from_bytes_big_unsigned raw
      then from_bytes_big_unsigned raw - 2 ^ (8 * length raw)
      else from_bytes_big_unsigned raw)"

subsection \<open>Process handling\<close>

text \<open>
  \<open>attach\<close> opens the process of the configured name among the running ones
  (\<open>running name = None\<close> when \<open>pymem.Pymem\<close> raises); the exception is caught.
\<close>

definition attach :: "(string \<Rightarrow> process option) \<Rightarrow> GameProcess \<Rightarrow> bool \<times> GameProcess" where
  "attach running gp =
     (case running (process_name gp) of
        Some p \<Rightarrow> (True, gp\<lparr>pm := Some p\<rparr>)
      | None \<Rightarrow> (False, gp\<lparr>pm := None\<rparr>))"

definition close :: "GameProcess \<Rightarrow> GameProcess" where
  "close gp = (if pm gp \<noteq> None then gp\<lparr>pm := None\<rparr> else gp)"

definition ensure_attached :: "GameProcess \<Rightarrow> error + unit" where
  "ensure_attached gp = (if pm gp = None then Inl RuntimeError else Inr ())"

definition get_memory_bounds :: "GameProcess \<Rightarrow> error + int \<times> int" where
  "get_memory_bounds gp =
     (case ensure_attached gp of
        Inl e \<Rightarrow> Inl e
      | Inr _ \<Rightarrow> Inr (lpMinimumApplicationAddress (the (pm gp)),
                      lpMaximumApplicationAddress (the (pm gp))))"

subsection \<open>Field codec\<close>

definition read_struct_field :: "config \<Rightarrow> GameProcess \<Rightarrow> int \<Rightarrow> string \<Rightarrow> error + pyval" where
  "read_struct_field cfg gp base_address field_name =
     (case ensure_attached gp of
        Inl e \<Rightarrow> Inl e
      | Inr _ \<Rightarrow>
         (case map_of (OFFSETS cfg) field_name of
            None \<Rightarrow> Inl (KeyError field_name)
          | Some fi \<Rightarrow>
             (let field_address = base_address + offset fi;
                  field_type = ftype fi
              in if field_type = ''byte'' then
                   (case read_uchar (the (pm gp)) field_address of
                      Inl e \<Rightarrow> Inl e | Inr v \<Rightarrow> Inr (PyInt v))
                 else if field_type = ''bool'' then
                   (case read_uchar (the (pm gp)) field_address of
                      Inl e \<Rightarrow> Inl e | Inr v \<Rightarrow> Inr (PyBool (v = 0x80)))
                 else if field_type = ''int32'' then
                   (case read_bytes (the (pm gp)) field_address 4 of
                      Inl e \<Rightarrow> Inl e | Inr raw \<Rightarrow> Inr (PyInt (from_bytes_big_signed raw)))
                 else Inl (ValueError field_type))))"

text \<open>
  A write returns the outcome together with the state it leaves: an exception
  keeps whatever was done before it was raised.
\<close>

definition stored :: "GameProcess \<Rightarrow> error + process \<Rightarrow> (error + unit) \<times> GameProcess" where
  "stored gp r = (case r of Inl e \<Rightarrow> (Inl e, gp) | Inr p' \<Rightarrow> (Inr (), gp\<lparr>pm := Some p'\<rparr>))"

definition write_struct_field ::
  "config \<Rightarrow> GameProcess \<Rightarrow> int \<Rightarrow> string \<Rightarrow> pyval \<Rightarrow> (error + unit) \<times> GameProcess" where
  "write_struct_field cfg gp base_address field_name v =
     (case ensure_attached gp of
        Inl e \<Rightarrow> (Inl e, gp)
      | Inr _ \<Rightarrow>
         (case map_of (OFFSETS cfg) field_name of
            None \<Rightarrow> (Inl (KeyError field_name), gp)
          | Some fi \<Rightarrow>
             (let field_address = base_address + offset fi;
                  field_type = ftype fi
              in if field_type = ''byte'' then
                   stored gp (write_uchar (the (pm gp)) field_address (as_int v))
                 else if field_type = ''bool'' then
                   stored gp (write_uchar (the (pm gp)) field_address
                                (if truthy v then 0x80 else 0x00))
                 else if field_type = ''int32'' then
                   (case to_bytes_big_signed (as_int v) 4 of
                      Inl e \<Rightarrow> (Inl e, gp)
                    | Inr raw \<Rightarrow> stored gp (write_bytes (the (pm gp)) field_address raw 4))
                 else (Inl (ValueError field_type), gp))))"

subsection \<open>Memory scanning\<close>

definition pattern_bytes :: "config \<Rightarrow> byte option list" where
  "pattern_bytes cfg =
     [Some 0x80]
     @ replicate (nat (STRUCT_SIZE cfg - 1 - PADDING_LENGTH cfg)) None
     @ replicate (nat (PADDING_LENGTH cfg)) (Some 0x00)"

text \<open>\<open>all(self._matches_pattern(chunk, i + j * STRUCT_SIZE, pattern) for j in range(4))\<close>\<close>

fun all_windows :: "config \<Rightarrow> byte list \<Rightarrow> byte option list \<Rightarrow> int \<Rightarrow> int list \<Rightarrow> error + bool" where
  "all_windows cfg chunk pat i [] = Inr True"
| "all_windows cfg chunk pat i (j # js) =
     (case matches_pattern chunk (i + j * STRUCT_SIZE cfg) pat of
        Inl e \<Rightarrow> Inl e
      | Inr ok \<Rightarrow> if ok then all_windows cfg chunk pat i js else Inr False)"

text \<open>
  The body of the inner \<open>for i in range(...)\<close>: the zero run is tested first and
  a failure goes on to the next offset without looking at the windows.
\<close>

fun scan_chunk :: "config \<Rightarrow> byte list \<Rightarrow> byte option list \<Rightarrow> int list \<Rightarrow> error + int option" where
  "scan_chunk cfg chunk pat [] = Inr None"
| "scan_chunk cfg chunk pat (i # rest) =
     (if list_ex (\<lambda>b. b \<noteq> 0x00) (py_slice chunk (i - PRECEDING_ZEROES cfg) i)
      then scan_chunk cfg chunk pat rest
      else (case all_windows cfg chunk pat i [0 .. 3] of
              Inl e \<Rightarrow> Inl e
            | Inr ok \<Rightarrow> if ok then Inr (Some i) else scan_chunk cfg chunk pat rest))"

text \<open>\<open>range(PRECEDING_ZEROES, len(chunk) - (STRUCT_SIZE * 4) + 1)\<close>\<close>

definition chunk_offsets :: "config \<Rightarrow> byte list \<Rightarrow> int list" where
  "chunk_offsets cfg chunk =
     [PRECEDING_ZEROES cfg .. int (length chunk) - (STRUCT_SIZE cfg * 4) + 1 - 1]"

definition readable_region :: "MEMORY_BASIC_INFORMATION \<Rightarrow> bool" where
  "readable_region mbi \<longleftrightarrow>
     State mbi = MEM_COMMIT \<and>
     (Protect mbi = PAGE_READWRITE \<or> Protect mbi = PAGE_EXECUTE_READWRITE)"

text \<open>
  One pass through the body of the \<open>while address < max_address\<close> loop at the
  cursor \<open>address\<close>: it ends in \<open>return address + i\<close>, in an exception that
  is not caught, or it goes round again with a new cursor (the two \<open>continue\<close>
  statements and the fall through to \<open>address += mbi.RegionSize\<close>).
\<close>

datatype iteration = Return int | Raise error | Continue int

definition scan_region :: "config \<Rightarrow> process \<Rightarrow> byte option list \<Rightarrow> int \<Rightarrow> int \<Rightarrow> iteration" where
  "scan_region cfg p pat max_address address =
     (case VirtualQueryEx p address of
        None \<Rightarrow> Continue (address + 0x1000)
      | Some mbi \<Rightarrow>
          if readable_region mbi then
            (case read_bytes p address (min (int (RegionSize mbi)) (max_address - address)) of
               Inl e \<Rightarrow>
                 if e = MemoryReadError then Continue (address + int (RegionSize mbi))
                 else Raise e
             | Inr chunk \<Rightarrow>
                 (case scan_chunk cfg chunk pat (chunk_offsets cfg chunk) of
                    Inl e \<Rightarrow> Raise e
                  | Inr (Some i) \<Rightarrow> Return (address + i)
                  | Inr None \<Rightarrow> Continue (address + int (RegionSize mbi))))
          else Continue (address + int (RegionSize mbi)))"

text \<open>
  The loop itself. It has no bound of its own, so the model is a partial
  function: \<open>None\<close> is a loop that never returns.
\<close>

partial_function (option) scan_regions ::
  "config \<Rightarrow> process \<Rightarrow> byte option list \<Rightarrow> int \<Rightarrow> int \<Rightarrow> (error + int option) option" where
  "scan_regions cfg p pat max_address address =
     (if address < max_address then
        (case scan_region cfg p pat max_address address of
           Return r \<Rightarrow> Some (Inr (Some r))
         | Raise e \<Rightarrow> Some (Inl e)
         | Continue address' \<Rightarrow> scan_regions cfg p pat max_address address')
      else Some (Inr None))"

definition find_first_character_address :: "config \<Rightarrow> GameProcess \<Rightarrow> (error + int option) option" where
  "find_first_character_address cfg gp =
     (case ensure_attached gp of
        Inl e \<Rightarrow> Some (Inl e)
      | Inr _ \<Rightarrow>
         (case get_memory_bounds gp of
            Inl e \<Rightarrow> Some (Inl e)
          | Inr (_, max_address) \<Rightarrow>
              scan_regions cfg (the (pm gp)) (pattern_bytes cfg) max_address
                (if FAST_SCAN cfg then FAST_SCAN_START_ADDRESS cfg else 0)))"

subsection \<open>Character methods\<close>

fun read_fields :: "config \<Rightarrow> GameProcess \<Rightarrow> int \<Rightarrow> string list \<Rightarrow> error + (string \<times> pyval) list" where
  "read_fields cfg gp base_address [] = Inr []"
| "read_fields cfg gp base_address (field_name # names) =
     (case read_struct_field cfg gp base_address field_name of
        Inl e \<Rightarrow> Inl e
      | Inr v \<Rightarrow>
         (case read_fields cfg gp base_address names of
            Inl e \<Rightarrow> Inl e
          | Inr rest \<Rightarrow> Inr ((field_name, v) # rest)))"

definition get_character_data :: "config \<Rightarrow> GameProcess \<Rightarrow> int \<Rightarrow> error + (string \<times> pyval) list" where
  "get_character_data cfg gp base_address =
     (case ensure_attached gp of
        Inl e \<Rightarrow> Inl e
      | Inr _ \<Rightarrow> read_fields cfg gp base_address (map fst (OFFSETS cfg)))"

text \<open>
  The \<open>for i in range(max_characters)\<close> loop with its \<open>break\<close>; \<open>addresses\<close> is
  the list built so far.
\<close>

fun collect_addresses :: "config \<Rightarrow> process \<Rightarrow> int \<Rightarrow> int list \<Rightarrow> int list \<Rightarrow> error + int list" where
  "collect_addresses cfg p first_address addresses [] = Inr addresses"
| "collect_addresses cfg p first_address addresses (i # rest) =
     (case read_uchar p (first_address + i * STRUCT_SIZE cfg) of
        Inl e \<Rightarrow> Inl e
      | Inr first_byte \<Rightarrow>
          if first_byte \<noteq> 0x00 \<and> first_byte \<noteq> 0x80 then Inr addresses
          else collect_addresses cfg p first_address
                 (addresses @ [first_address + i * STRUCT_SIZE cfg]) rest)"

definition get_character_addresses :: "config \<Rightarrow> GameProcess \<Rightarrow> int \<Rightarrow> (error + int list) option" where
  "get_character_addresses cfg gp max_characters =
     (case ensure_attached gp of
        Inl e \<Rightarrow> Some (Inl e)
      | Inr _ \<Rightarrow>
         (case find_first_character_address cfg gp of
            None \<Rightarrow> None
          | Some (Inl e) \<Rightarrow> Some (Inl e)
          | Some (Inr None) \<Rightarrow> Some (Inr [])
          | Some (Inr (Some first_address)) \<Rightarrow>
              Some (collect_addresses cfg (the (pm gp)) first_address []
                      [0 .. max_characters - 1])))"

fun read_characters :: "config \<Rightarrow> GameProcess \<Rightarrow> int list \<Rightarrow> error + (string \<times> pyval) list list" where
  "read_characters cfg gp [] = Inr []"
| "read_characters cfg gp (address # rest) =
     (case get_character_data cfg gp address of
        Inl e \<Rightarrow> Inl e
      | Inr d \<Rightarrow>
         (case read_characters cfg gp rest of
            Inl e \<Rightarrow> Inl e
          | Inr ds \<Rightarrow> Inr (d # ds)))"

definition get_all_character_data ::
  "config \<Rightarrow> GameProcess \<Rightarrow> int \<Rightarrow> (error + (string \<times> pyval) list list) option" where
  "get_all_character_data cfg gp max_characters =
     (case ensure_attached gp of
        Inl e \<Rightarrow> Some (Inl e)
      | Inr _ \<Rightarrow>
         (case get_character_addresses cfg gp max_characters of
            None \<Rightarrow> None
          | Some (Inl e) \<Rightarrow> Some (Inl e)
          | Some (Inr addresses) \<Rightarrow> Some (read_characters cfg gp addresses)))"

subsection \<open>Value ranges of the field types\<close>

text \<open>
  The valid range of each declared type, as the specification words it: a byte
  is 0 to 255, a boolean is true or false, a signed 32-bit integer is
  -2147483648 to 2147483647. \<open>field_width\<close> is the number of bytes the type
  occupies.
\<close>

definition in_type_range :: "string \<Rightarrow> pyval \<Rightarrow> bool" where
  "in_type_range ty v =
     (case v of
        PyInt n \<Rightarrow> (ty = ''byte'' \<and> 0 \<le> n \<and> n \<le> 255)
                 \<or> (ty = ''int32'' \<and> - 2147483648 \<le> n \<and> n \<le> 2147483647)
      | PyBool b \<Rightarrow> ty = ''bool'')"

definition field_width :: "string \<Rightarrow> int" where
  "field_width ty = (if ty = ''int32'' then 4 else 1)"

subsection \<open>The record signature, as specified\<close>

text \<open>
  The specification's wording of what the locator looks for. A record signature
  at \<open>s\<close>: the first byte is 0x80 and the last \<open>PADDING_LENGTH\<close> bytes of the
  record are zero (the bytes between are wildcards). A table start at offset
  \<open>i\<close> of a chunk: \<open>i\<close> ranges from \<open>PRECEDING_ZEROES\<close> to
  \<open>len - 4 * STRUCT_SIZE\<close>, the \<open>PRECEDING_ZEROES\<close> bytes before \<open>i\<close> are zero,
  and the four consecutive record-sized windows from \<open>i\<close> each carry the
  signature.
\<close>

definition spec_signature_at :: "config \<Rightarrow> byte list \<Rightarrow> int \<Rightarrow> bool" where
  "spec_signature_at cfg chunk s \<longleftrightarrow>
     chunk ! nat s = 0x80 \<and>
     (\<forall>q \<in> {STRUCT_SIZE cfg - PADDING_LENGTH cfg ..< STRUCT_SIZE cfg}. chunk ! nat (s + q) = 0x00)"

definition spec_table_start :: "config \<Rightarrow> byte list \<Rightarrow> int \<Rightarrow> bool" where
  "spec_table_start cfg chunk i \<longleftrightarrow>
     PRECEDING_ZEROES cfg \<le> i \<and> i \<le> int (length chunk) - 4 * STRUCT_SIZE cfg \<and>
     (\<forall>k \<in> {i - PRECEDING_ZEROES cfg ..< i}. chunk ! nat k = 0x00) \<and>
     (\<forall>j \<in> {0 ..< 4}. spec_signature_at cfg chunk (i + j * STRUCT_SIZE cfg))"

subsection \<open>The walk over the regions, as specified\<close>

text \<open>
  The region enumerator in the specification's words. From a cursor, a failed
  query advances by one page of 4096 bytes and any other region is left by
  advancing by its reported size. A region is handed to the locator when it is
  committed and read-write or execute-read-write, and its bytes, read from
  the cursor and bounded by the region size and the maximum address, could be
  read. \<open>cursor p start k\<close> is the cursor after \<open>k\<close> regions.
\<close>

definition next_address :: "process \<Rightarrow> int \<Rightarrow> int" where
  "next_address p a =
     (case VirtualQueryEx p a of
        None \<Rightarrow> a + 4096
      | Some mbi \<Rightarrow> a + int (RegionSize mbi))"

definition region_chunk :: "process \<Rightarrow> int \<Rightarrow> int \<Rightarrow> byte list option" where
  "region_chunk p max_address a =
     (case VirtualQueryEx p a of
        None \<Rightarrow> None
      | Some mbi \<Rightarrow>
          if State mbi = MEM_COMMIT \<and> Protect mbi \<in> {PAGE_READWRITE, PAGE_EXECUTE_READWRITE}
          then (case read_bytes p a (min (int (RegionSize mbi)) (max_address - a)) of
                  Inl e \<Rightarrow> None
                | Inr chunk \<Rightarrow> Some chunk)
          else None)"

definition cursor :: "process \<Rightarrow> int \<Rightarrow> nat \<Rightarrow> int" where
  "cursor p start k = (next_address p ^^ k) start"

text \<open>
  No offset of the region at \<open>a\<close> is a table start; and \<open>i\<close> is the first
  offset of the region at \<open>a\<close> that is one.
\<close>

definition spec_no_table :: "config \<Rightarrow> process \<Rightarrow> int \<Rightarrow> int \<Rightarrow> bool" where
  "spec_no_table cfg p max_address a \<longleftrightarrow>
     (\<forall>chunk. region_chunk p max_address a = Some chunk \<longrightarrow>
        (\<forall>i. \<not> spec_table_start cfg chunk i))"

definition spec_first_table :: "config \<Rightarrow> process \<Rightarrow> int \<Rightarrow> int \<Rightarrow> int \<Rightarrow> bool" where
  "spec_first_table cfg p max_address a i \<longleftrightarrow>
     (\<exists>chunk. region_chunk p max_address a = Some chunk \<and>
        spec_table_start cfg chunk i \<and> (\<forall>i' < i. \<not> spec_table_start cfg chunk i'))"

text \<open>
  The start address: 0, or the fast-scan start address in fast-scan mode.
\<close>

definition scan_start :: "config \<Rightarrow> int" where
  "scan_start cfg = (if FAST_SCAN cfg then FAST_SCAN_START_ADDRESS cfg else 0)"

text \<open>
  The outcome \<open>y\<close> of the walk from the cursor \<open>a\<close>: after \<open>k\<close> regions below
  the maximum address that hold no table start, either the cursor has reached
  the maximum address and nothing is found, or the next region holds a table
  start and the result is its cursor plus the first such offset.
\<close>

definition walk_result :: "config \<Rightarrow> process \<Rightarrow> int \<Rightarrow> int \<Rightarrow> (error + int option) \<Rightarrow> bool" where
  "walk_result cfg p max_address a y \<longleftrightarrow>
     (\<exists>k. (\<forall>m < k. cursor p a m < max_address \<and> spec_no_table cfg p max_address (cursor p a m)) \<and>
        (max_address \<le> cursor p a k \<and> y = Inr None \<or>
         cursor p a k < max_address \<and>
           (\<exists>i. spec_first_table cfg p max_address (cursor p a k) i \<and>
                 y = Inr (Some (cursor p a k + i)))))"

subsection \<open>An example configuration and process\<close>

text \<open>
  Concrete inputs on which the theorems below are exercised: the record layout
  of the end-to-end scenario (record size 50, padding 4, ten preceding zeros)
  with one field of each type and one of an unsupported type, and a process
  whose first page holds the byte 1 everywhere.
\<close>

definition example_config :: config where
  "example_config =
     \<lparr>FAST_SCAN = False, FAST_SCAN_START_ADDRESS = 0,
      OFFSETS = [(''is_character_unlocked'', \<lparr>offset = 0, ftype = ''bool''\<rparr>),
                 (''level'', \<lparr>offset = 1, ftype = ''byte''\<rparr>),
                 (''gold'', \<lparr>offset = 2, ftype = ''int32''\<rparr>),
                 (''speed'', \<lparr>offset = 6, ftype = ''float''\<rparr>)],
      PADDING_LENGTH = 4, PRECEDING_ZEROES = 10, STRUCT_SIZE = 50\<rparr>"

definition ones_process :: process where
  "ones_process =
     \<lparr>memory = (\<lambda>a. if 0 \<le> a \<and> a < 4096 then Some 1 else None),
      VirtualQueryEx = (\<lambda>a. None),
      lpMinimumApplicationAddress = 0,
      lpMaximumApplicationAddress = 4096\<rparr>"

definition ones_game :: GameProcess where
  "ones_game = \<lparr>pm = Some ones_process, process_name = ''game.exe''\<rparr>"

text \<open>
  The synthetic buffer of the end-to-end scenario: ten zero bytes, then four
  records of 0x80, 45 non-zero bytes and 4 zero bytes; the byte after the
  fourth record is 0x42. \<open>table_process\<close> holds it in one committed
  read-write region at address 0.
\<close>

definition record_bytes :: "byte list" where
  "record_bytes = 0x80 # replicate 45 7 @ replicate 4 0x00"

definition table_bytes :: "byte list" where
  "table_bytes =
     replicate 10 0x00 @ record_bytes @ record_bytes @ record_bytes @ record_bytes
     @ (0x42 # replicate 89 0x00)"

definition table_process :: process where
  "table_process =
     \<lparr>memory = (\<lambda>a. if 0 \<le> a \<and> a < 300 then Some (table_bytes ! nat a) else None),
      VirtualQueryEx = (\<lambda>a. if a = 0
         then Some \<lparr>RegionSize = 300, State = MEM_COMMIT, Protect = PAGE_READWRITE\<rparr>
         else None),
      lpMinimumApplicationAddress = 0,
      lpMaximumApplicationAddress = 65536\<rparr>"

definition table_game :: GameProcess where
  "table_game = \<lparr>pm = Some table_process, process_name = ''game.exe''\<rparr>"

section \<open>The byte-pattern matcher\<close>

lemma matches_from_True_iff:
  "matches_from data start i pat = Inr True \<longleftrightarrow>
     (\<forall>p < length pat. \<forall>b. pat ! p = Some b \<longrightarrow>
        py_getitem data (start + i + int p) = Inr b)"
proof (induction data start i pat rule: matches_from.induct)
  case (1 data start i)
  show ?case by simp
next
  case (2 data start i bs)
  have "(\<forall>p < length (None # bs). \<forall>b. (None # bs) ! p = Some b \<longrightarrow>
            py_getitem data (start + i + int p) = Inr b)
        \<longleftrightarrow> (\<forall>p < length bs. \<forall>b. bs ! p = Some b \<longrightarrow>
            py_getitem data (start + (i + 1) + int p) = Inr b)"
    by (simp add: All_less_Suc2 ac_simps)
  with 2 show ?case by simp
next
  case (3 data start i b bs)
  have split: "(\<forall>p < length (Some b # bs). \<forall>c. (Some b # bs) ! p = Some c \<longrightarrow>
            py_getitem data (start + i + int p) = Inr c)
        \<longleftrightarrow> py_getitem data (start + i) = Inr b \<and>
            (\<forall>p < length bs. \<forall>c. bs ! p = Some c \<longrightarrow>
            py_getitem data (start + (i + 1) + int p) = Inr c)"
    by (simp add: All_less_Suc2 ac_simps)
  show ?case
  proof (cases "py_getitem data (start + i)")
    case (Inl e)
    then show ?thesis unfolding split by simp
  next
    case (Inr d)
    show ?thesis
    proof (cases "d = b")
      case True
      with Inr 3 show ?thesis unfolding split by simp
    next
      case False
      with Inr show ?thesis unfolding split by auto
    qed
  qed
qed

lemma matches_from_in_range:
  "0 \<le> start + i \<Longrightarrow> start + i + int (length pat) \<le> int (length data) \<Longrightarrow>
   matches_from data start i pat =
     Inr (\<forall>p < length pat. \<forall>b. pat ! p = Some b \<longrightarrow> data ! nat (start + i + int p) = b)"
proof (induction data start i pat rule: matches_from.induct)
  case (1 data start i)
  show ?case by simp
next
  case (2 data start i bs)
  then have "matches_from data start (i + 1) bs =
     Inr (\<forall>p < length bs. \<forall>b. bs ! p = Some b \<longrightarrow> data ! nat (start + (i + 1) + int p) = b)"
    by simp
  then show ?case by (simp add: All_less_Suc2 ac_simps)
next
  case (3 data start i b bs)
  from 3 have get: "py_getitem data (start + i) = Inr (data ! nat (start + i))"
    by (simp add: py_getitem_def)
  have split: "(\<forall>p < length (Some b # bs). \<forall>c. (Some b # bs) ! p = Some c \<longrightarrow>
            data ! nat (start + i + int p) = c)
        \<longleftrightarrow> data ! nat (start + i) = b \<and>
            (\<forall>p < length bs. \<forall>c. bs ! p = Some c \<longrightarrow>
            data ! nat (start + (i + 1) + int p) = c)"
    by (auto simp add: All_less_Suc2 ac_simps)
  show ?case
  proof (cases "data ! nat (start + i) = b")
    case True
    with get 3 have "matches_from data start (i + 1) bs =
       Inr (\<forall>p < length bs. \<forall>c. bs ! p = Some c \<longrightarrow> data ! nat (start + (i + 1) + int p) = c)"
      by simp
    with True show ?thesis unfolding split by (simp add: get)
  next
    case False
    then show ?thesis unfolding split by (simp add: get)
  qed
qed

lemma matches_from_wildcards:
  "(\<forall>p < length pat. pat ! p = None) \<Longrightarrow> matches_from data start i pat = Inr True"
  by (simp add: matches_from_True_iff)

text \<open>
  Claim C2. \<open>_matches_pattern(buffer, start, pattern)\<close> returns true exactly when
  every non-wildcard position \<open>p\<close> of the pattern satisfies
  \<open>buffer[start + p] == pattern[p]\<close>, the index being Python's; when the whole
  window lies inside the buffer it always returns a boolean, which is the truth
  value of that condition; and an all-wildcard pattern gives true whatever the
  buffer holds (the buffer is not indexed at all). The function takes and
  returns values only: it has no state to change.
\<close>

theorem matches_pattern_spec:
  "(matches_pattern data start pat = Inr True \<longleftrightarrow>
      (\<forall>p < length pat. \<forall>b. pat ! p = Some b \<longrightarrow> py_getitem data (start + int p) = Inr b))
   \<and> (0 \<le> start \<and> start + int (length pat) \<le> int (length data) \<longrightarrow>
        matches_pattern data start pat =
          Inr (\<forall>p < length pat. \<forall>b. pat ! p = Some b \<longrightarrow> data ! nat (start + int p) = b))
   \<and> ((\<forall>p < length pat. pat ! p = None) \<longrightarrow> matches_pattern data start pat = Inr True)"
  using matches_from_True_iff [of data start 0 pat]
        matches_from_in_range [of start 0 pat data]
        matches_from_wildcards [of pat data start 0]
  by (simp add: matches_pattern_def)

theorem matches_pattern_spec_witness:
  "matches_pattern [0x80, 7, 0] 0 [Some 0x80, None, Some 0] = Inr True
   \<and> matches_pattern [0x80, 7, 1] 0 [Some 0x80, None, Some 0] = Inr False
   \<and> matches_pattern [1, 2] 5 [None, None] = Inr True"
  using matches_pattern_spec [of "[0x80, 7, 0]" 0 "[Some 0x80, None, Some 0]"]
        matches_pattern_spec [of "[0x80, 7, 1]" 0 "[Some 0x80, None, Some 0]"]
        matches_pattern_spec [of "[1, 2]" 5 "[None, None]"]
  by (simp add: All_less_Suc numeral_3_eq_3 numeral_2_eq_2)

section \<open>The field codec\<close>

lemma uint_byte_eq_128: "uint (b :: byte) = 128 \<longleftrightarrow> b = 128"
proof
  assume "uint b = 128"
  then have "word_of_int (uint b) = (word_of_int 128 :: byte)" by simp
  then show "b = 128" by simp
next
  assume "b = 128" then show "uint b = 128" by simp
qed

lemma upto4: "[a .. a + 4 - 1] = [a, a + 1, a + 2, a + 3]"
  by (simp add: upto.simps)

lemma upto1: "[a .. a + 1 - 1] = [a]"
  by (simp add: upto.simps)

lemma be32_unsigned:
  "from_bytes_big_unsigned
     [word_of_int (n div 2 ^ 24), word_of_int (n div 2 ^ 16), word_of_int (n div 2 ^ 8), word_of_int n]
   = n mod 2 ^ 32"
proof -
  have u: "\<And>k. uint (word_of_int k :: byte) = k mod 256"
    by (simp add: uint_word_of_int)
  have a: "n mod 2 ^ 32 = 2 ^ 24 * (n div 2 ^ 24 mod 256) + n mod 2 ^ 24"
    using zmod_zmult2_eq [of 256 n "2 ^ 24"] by simp
  have b: "n mod 2 ^ 24 = 2 ^ 16 * (n div 2 ^ 16 mod 256) + n mod 2 ^ 16"
    using zmod_zmult2_eq [of 256 n "2 ^ 16"] by simp
  have c: "n mod 2 ^ 16 = 2 ^ 8 * (n div 2 ^ 8 mod 256) + n mod 2 ^ 8"
    using zmod_zmult2_eq [of 256 n "2 ^ 8"] by simp
  show ?thesis
    unfolding from_bytes_big_unsigned_def using a b c by (simp add: u)
qed

lemma be32_round_trip:
  assumes "- 2147483648 \<le> n" "n \<le> 2147483647"
  shows "from_bytes_big_signed
     [word_of_int (n div 2 ^ 24), word_of_int (n div 2 ^ 16), word_of_int (n div 2 ^ 8), word_of_int n]
   = n"
proof (cases "0 \<le> n")
  case True
  with assms have "n mod 2 ^ 32 = n" by simp
  with assms show ?thesis
    unfolding from_bytes_big_signed_def be32_unsigned by simp
next
  case False
  with assms have "n mod 2 ^ 32 = n + 2 ^ 32"
    using mod_add_self2 [of n "2 ^ 32"] mod_pos_pos_trivial [of "n + 2 ^ 32" "2 ^ 32"] by simp
  with assms False show ?thesis
    unfolding from_bytes_big_signed_def be32_unsigned by simp
qed

lemma to_bytes_4:
  "- 2147483648 \<le> n \<Longrightarrow> n \<le> 2147483647 \<Longrightarrow>
   to_bytes_big_signed n 4 =
     Inr [word_of_int (n div 2 ^ 24), word_of_int (n div 2 ^ 16), word_of_int (n div 2 ^ 8), word_of_int n]"
proof -
  have "[0 ..< 4] = [0, 1, 2, 3::nat]" by (simp add: upt_conv_Cons)
  then show "- 2147483648 \<le> n \<Longrightarrow> n \<le> 2147483647 \<Longrightarrow> ?thesis"
    by (simp add: to_bytes_big_signed_def)
qed


lemma store_bytes_4:
  "store_bytes m a [b0, b1, b2, b3] =
     m(a := Some b0, a + 1 := Some b1, a + 2 := Some b2, a + 3 := Some b3)"
  by (simp add: add.assoc)

lemma read_after_write_bytes_4:
  assumes "write_bytes p a [b0, b1, b2, b3] 4 = Inr p'"
  shows "read_bytes p' a 4 = Inr [b0, b1, b2, b3]"
proof -
  from assms have "memory p' = (memory p)(a := Some b0, a + 1 := Some b1, a + 2 := Some b2, a + 3 := Some b3)"
    by (auto simp add: write_bytes_def add.assoc split: if_splits)
  then show ?thesis
    unfolding read_bytes_def upto4 by simp
qed

lemma read_after_write_uchar:
  "write_uchar p a v = Inr p' \<Longrightarrow> read_uchar p' a = Inr (v mod 256)"
  by (auto simp add: write_uchar_def read_uchar_def uint_word_of_int split: option.splits)

lemma write_uchar_ok:
  "memory p a \<noteq> None \<Longrightarrow>
   write_uchar p a v = Inr (p\<lparr>memory := (memory p)(a := Some (word_of_int v))\<rparr>)"
  by (auto simp add: write_uchar_def split: option.splits)

lemma write_bytes_4_ok:
  "\<forall>k. 0 \<le> k \<and> k < 4 \<longrightarrow> memory p (a + k) \<noteq> None \<Longrightarrow>
   write_bytes p a [b0, b1, b2, b3] 4 =
     Inr (p\<lparr>memory := store_bytes (memory p) a [b0, b1, b2, b3]\<rparr>)"
proof -
  assume h: "\<forall>k. 0 \<le> k \<and> k < 4 \<longrightarrow> memory p (a + k) \<noteq> None"
  from h [rule_format, of 0] h [rule_format, of 1] h [rule_format, of 2] h [rule_format, of 3]
  show ?thesis
    unfolding write_bytes_def upto4 by simp
qed

text \<open>
  Claim C3. For every declared field type, writing a value of the type's valid
  range with \<open>write_struct_field\<close> and reading the same field back with
  \<open>read_struct_field\<close> from the memory the write left yields the value
  written: a byte 0..255, a boolean, a signed 32-bit integer of the full range.
  The write succeeds whenever the bytes of the field can be accessed, and an
  int32 is laid out in four bytes, most significant first, in two's complement.
\<close>

theorem field_round_trip:
  assumes att: "pm gp = Some p"
    and fld: "map_of (OFFSETS cfg) field_name = Some fi"
    and rng: "in_type_range (ftype fi) v"
    and acc: "\<forall>k. 0 \<le> k \<and> k < field_width (ftype fi) \<longrightarrow>
                memory p (base_address + offset fi + k) \<noteq> None"
  shows "\<exists>gp'. write_struct_field cfg gp base_address field_name v = (Inr (), gp')
           \<and> read_struct_field cfg gp' base_address field_name = Inr v
           \<and> (\<forall>n. ftype fi = ''int32'' \<and> v = PyInt n \<longrightarrow>
                read_bytes (the (pm gp')) (base_address + offset fi) 4 =
                  Inr [word_of_int (n div 2 ^ 24), word_of_int (n div 2 ^ 16),
                       word_of_int (n div 2 ^ 8), word_of_int n])"
proof -
  let ?a = "base_address + offset fi"
  from rng consider
      (byte) n where "ftype fi = ''byte''" "v = PyInt n" "0 \<le> n" "n \<le> 255"
    | (bool) b where "ftype fi = ''bool''" "v = PyBool b"
    | (int32) n where "ftype fi = ''int32''" "v = PyInt n" "- 2147483648 \<le> n" "n \<le> 2147483647"
    by (auto simp add: in_type_range_def split: pyval.splits)
  then show ?thesis
  proof cases
    case byte
    from acc [rule_format, of 0] byte have m: "memory p ?a \<noteq> None"
      by (simp add: field_width_def)
    from byte have "n mod 256 = n" by simp
    with m byte att fld show ?thesis
      by (simp add: write_struct_field_def read_struct_field_def ensure_attached_def
          stored_def write_uchar_ok read_uchar_def uint_word_of_int)
  next
    case bool
    from acc [rule_format, of 0] bool have m: "memory p ?a \<noteq> None"
      by (simp add: field_width_def)
    with bool att fld show ?thesis
      by (simp add: write_struct_field_def read_struct_field_def ensure_attached_def
          stored_def write_uchar_ok read_uchar_def uint_word_of_int)
  next
    case int32
    let ?raw = "[word_of_int (n div 2 ^ 24), word_of_int (n div 2 ^ 16),
                 word_of_int (n div 2 ^ 8), word_of_int n] :: byte list"
    let ?p' = "p\<lparr>memory := store_bytes (memory p) ?a ?raw\<rparr>"
    from acc int32 have "\<forall>k. 0 \<le> k \<and> k < 4 \<longrightarrow> memory p (?a + k) \<noteq> None"
      by (simp add: field_width_def)
    then have w: "write_bytes p ?a ?raw 4 = Inr ?p'"
      by (rule write_bytes_4_ok)
    then have r: "read_bytes ?p' ?a 4 = Inr ?raw"
      by (rule read_after_write_bytes_4)
    from int32(3,4) have tb: "to_bytes_big_signed n 4 = Inr ?raw"
      by (rule to_bytes_4)
    from int32(3,4) have rt: "from_bytes_big_signed ?raw = n"
      by (rule be32_round_trip)
    have wr: "write_struct_field cfg gp base_address field_name v = (Inr (), gp\<lparr>pm := Some ?p'\<rparr>)"
      using att fld int32(1,2) tb w
      by (simp add: write_struct_field_def ensure_attached_def stored_def)
    have rd: "read_struct_field cfg (gp\<lparr>pm := Some ?p'\<rparr>) base_address field_name = Inr v"
      using fld int32(1,2) r rt
      by (simp add: read_struct_field_def ensure_attached_def)
    from wr rd r int32 show ?thesis by simp
  qed
qed


theorem field_round_trip_witness:
  "(\<exists>gp'. write_struct_field example_config ones_game 100 ''gold'' (PyInt (- 2)) = (Inr (), gp')
       \<and> read_struct_field example_config gp' 100 ''gold'' = Inr (PyInt (- 2))
       \<and> read_bytes (the (pm gp')) 102 4 = Inr [255, 255, 255, 254])
   \<and> (\<exists>gp'. write_struct_field example_config ones_game 100 ''level'' (PyInt 255) = (Inr (), gp')
       \<and> read_struct_field example_config gp' 100 ''level'' = Inr (PyInt 255))
   \<and> (\<exists>gp'. write_struct_field example_config ones_game 100 ''is_character_unlocked'' (PyBool True) = (Inr (), gp')
       \<and> read_struct_field example_config gp' 100 ''is_character_unlocked'' = Inr (PyBool True))"
proof -
  have att: "pm ones_game = Some ones_process" by (simp add: ones_game_def)
  have mem: "\<And>a w. \<forall>k. 0 \<le> k \<and> k < w \<longrightarrow> 0 \<le> a + k \<and> a + k < 4096 \<Longrightarrow>
      \<forall>k. 0 \<le> k \<and> k < w \<longrightarrow> memory ones_process (a + k) \<noteq> None"
    by (simp add: ones_process_def)
  have w: "(255 :: byte) = - 1" "(254 :: byte) = - 2" by simp_all
  have 1: "\<exists>gp'. write_struct_field example_config ones_game 100 ''gold'' (PyInt (- 2)) = (Inr (), gp')
       \<and> read_struct_field example_config gp' 100 ''gold'' = Inr (PyInt (- 2))
       \<and> read_bytes (the (pm gp')) 102 4 = Inr [255, 255, 255, 254]"
    using field_round_trip [OF att, of example_config "''gold''" "\<lparr>offset = 2, ftype = ''int32''\<rparr>" "PyInt (- 2)" 100]
    by (simp add: example_config_def in_type_range_def field_width_def ones_process_def w)
  have 2: "\<exists>gp'. write_struct_field example_config ones_game 100 ''level'' (PyInt 255) = (Inr (), gp')
       \<and> read_struct_field example_config gp' 100 ''level'' = Inr (PyInt 255)"
    using field_round_trip [OF att, of example_config "''level''" "\<lparr>offset = 1, ftype = ''byte''\<rparr>" "PyInt 255" 100]
    by (simp add: example_config_def in_type_range_def field_width_def ones_process_def)
  have 3: "\<exists>gp'. write_struct_field example_config ones_game 100 ''is_character_unlocked'' (PyBool True) = (Inr (), gp')
       \<and> read_struct_field example_config gp' 100 ''is_character_unlocked'' = Inr (PyBool True)"
    using field_round_trip [OF att, of example_config "''is_character_unlocked''" "\<lparr>offset = 0, ftype = ''bool''\<rparr>" "PyBool True" 100]
    by (simp add: example_config_def in_type_range_def field_width_def ones_process_def)
  from 1 2 3 show ?thesis by blast
qed

text \<open>
  Claim C4. A boolean field decodes to true exactly when the stored byte is
  0x80 (so a stored 0x01 decodes to false), and encoding a boolean stores
  exactly 0x80 for true and 0x00 for false.
\<close>

theorem bool_field_codec:
  assumes "pm gp = Some p"
    and "map_of (OFFSETS cfg) field_name = Some fi"
    and "ftype fi = ''bool''"
    and "memory p (base_address + offset fi) = Some b"
  shows "read_struct_field cfg gp base_address field_name = Inr (PyBool (b = 0x80))
       \<and> write_struct_field cfg gp base_address field_name v =
           (Inr (), gp\<lparr>pm := Some (p\<lparr>memory := (memory p)
              (base_address + offset fi := Some (if truthy v then 0x80 else 0x00))\<rparr>)\<rparr>)"
  using assms
  by (simp add: read_struct_field_def write_struct_field_def ensure_attached_def
      read_uchar_def write_uchar_def stored_def uint_byte_eq_128)

theorem bool_field_codec_witness:
  "read_struct_field example_config ones_game 100 ''is_character_unlocked'' = Inr (PyBool False)
   \<and> fst (write_struct_field example_config ones_game 100 ''is_character_unlocked'' (PyBool True)) = Inr ()
   \<and> memory (the (pm (snd (write_struct_field example_config ones_game 100
         ''is_character_unlocked'' (PyBool True))))) 100 = Some 0x80
   \<and> memory (the (pm (snd (write_struct_field example_config ones_game 100
         ''is_character_unlocked'' (PyBool False))))) 100 = Some 0x00"
  using bool_field_codec [of ones_game ones_process example_config "''is_character_unlocked''"
          "\<lparr>offset = 0, ftype = ''bool''\<rparr>" 100 1 "PyBool True"]
        bool_field_codec [of ones_game ones_process example_config "''is_character_unlocked''"
          "\<lparr>offset = 0, ftype = ''bool''\<rparr>" 100 1 "PyBool False"]
  by (simp add: example_config_def ones_game_def ones_process_def)

text \<open>
  Claim C8. On an attached process, a field whose descriptor declares a type
  other than byte, bool and int32 makes both \<open>read_struct_field\<close> and
  \<open>write_struct_field\<close> raise the unsupported-field-type ValueError; the write
  leaves the process as it was, and the outcome of the read is the same
  whatever the memory of the target holds.
\<close>

theorem unsupported_field_type:
  assumes "pm gp = Some p"
    and "map_of (OFFSETS cfg) field_name = Some fi"
    and "ftype fi \<noteq> ''byte''" and "ftype fi \<noteq> ''bool''" and "ftype fi \<noteq> ''int32''"
  shows "read_struct_field cfg gp base_address field_name = Inl (ValueError (ftype fi))
       \<and> write_struct_field cfg gp base_address field_name v = (Inl (ValueError (ftype fi)), gp)
       \<and> (\<forall>m. read_struct_field cfg (gp\<lparr>pm := Some (p\<lparr>memory := m\<rparr>)\<rparr>) base_address field_name
               = Inl (ValueError (ftype fi)))"
  using assms
  by (simp add: read_struct_field_def write_struct_field_def ensure_attached_def)

theorem unsupported_field_type_witness:
  "read_struct_field example_config ones_game 100 ''speed'' = Inl (ValueError ''float'')
   \<and> write_struct_field example_config ones_game 100 ''speed'' (PyInt 3)
       = (Inl (ValueError ''float''), ones_game)"
  using unsupported_field_type [of ones_game ones_process example_config "''speed''"
          "\<lparr>offset = 6, ftype = ''float''\<rparr>" 100 "PyInt 3"]
  by (simp add: example_config_def ones_game_def)

section \<open>Process handling\<close>

text \<open>
  Claim C7. With no process attached, each of \<open>read_struct_field\<close>,
  \<open>write_struct_field\<close>, \<open>find_first_character_address\<close>,
  \<open>get_memory_bounds\<close>, \<open>get_character_data\<close>, \<open>get_character_addresses\<close>
  and \<open>get_all_character_data\<close> raises the not-attached RuntimeError. That is
  the state \<open>close\<close> leaves, so it holds right after \<open>close\<close>; \<open>close\<close> on a
  closed handle changes nothing; and an \<open>attach\<close> that fails returns False and
  leaves the handle not attached.
\<close>

theorem not_attached:
  assumes "pm gp = None"
  shows "read_struct_field cfg gp base_address field_name = Inl RuntimeError
       \<and> write_struct_field cfg gp base_address field_name v = (Inl RuntimeError, gp)
       \<and> find_first_character_address cfg gp = Some (Inl RuntimeError)
       \<and> get_memory_bounds gp = Inl RuntimeError
       \<and> get_character_data cfg gp base_address = Inl RuntimeError
       \<and> get_character_addresses cfg gp max_characters = Some (Inl RuntimeError)
       \<and> get_all_character_data cfg gp max_characters = Some (Inl RuntimeError)
       \<and> close gp = gp
       \<and> pm (close g) = None
       \<and> close (close g) = close g
       \<and> read_struct_field cfg (close g) base_address field_name = Inl RuntimeError
       \<and> (running (process_name g) = None \<longrightarrow>
            fst (attach running g) = False \<and> pm (snd (attach running g)) = None)"
  using assms
  by (simp add: read_struct_field_def write_struct_field_def find_first_character_address_def
      get_memory_bounds_def get_character_data_def get_character_addresses_def
      get_all_character_data_def ensure_attached_def close_def attach_def)

theorem not_attached_witness:
  "read_struct_field example_config (close ones_game) 100 ''level'' = Inl RuntimeError
   \<and> write_struct_field example_config (close ones_game) 100 ''level'' (PyInt 3)
        = (Inl RuntimeError, close ones_game)
   \<and> get_all_character_data example_config (close ones_game) 42 = Some (Inl RuntimeError)
   \<and> fst (attach (\<lambda>name. None) ones_game) = False
   \<and> pm (snd (attach (\<lambda>name. None) ones_game)) = None"
  using not_attached [of "close ones_game" example_config 100 "''level''" "PyInt 3" 42 ones_game "\<lambda>name. None"]
  by (simp add: close_def ones_game_def)


section \<open>The record locator within one chunk\<close>

lemma length_pattern_bytes:
  "config_ok cfg \<Longrightarrow> length (pattern_bytes cfg) = nat (STRUCT_SIZE cfg)"
  by (simp add: pattern_bytes_def config_ok_def) linarith

lemma pattern_bytes_nth:
  assumes "config_ok cfg" "p < nat (STRUCT_SIZE cfg)"
  shows "pattern_bytes cfg ! p =
     (if p = 0 then Some 0x80
      else if int p < STRUCT_SIZE cfg - PADDING_LENGTH cfg then None
      else Some 0x00)"
proof (cases "p = 0")
  case True
  then show ?thesis by (simp add: pattern_bytes_def)
next
  case False
  then obtain q where q: "p = Suc q" by (cases p) auto
  show ?thesis
  proof (cases "int p < STRUCT_SIZE cfg - PADDING_LENGTH cfg")
    case True
    with q have "q < nat (STRUCT_SIZE cfg - 1 - PADDING_LENGTH cfg)" by linarith
    with q True show ?thesis by (simp add: pattern_bytes_def nth_append)
  next
    case False
    with q have a: "\<not> q < nat (STRUCT_SIZE cfg - 1 - PADDING_LENGTH cfg)" by linarith
    from assms q a have "q - nat (STRUCT_SIZE cfg - 1 - PADDING_LENGTH cfg) < nat (PADDING_LENGTH cfg)"
      unfolding config_ok_def by linarith
    with q False a show ?thesis by (simp add: pattern_bytes_def nth_append)
  qed
qed

lemma window_matches_signature:
  assumes ok: "config_ok cfg" and lo: "0 \<le> s" and hi: "s + STRUCT_SIZE cfg \<le> int (length chunk)"
  shows "matches_pattern chunk s (pattern_bytes cfg) = Inr (spec_signature_at cfg chunk s)"
proof -
  from ok have S: "0 < STRUCT_SIZE cfg" "0 \<le> PADDING_LENGTH cfg" "PADDING_LENGTH cfg < STRUCT_SIZE cfg"
    by (auto simp add: config_ok_def)
  have len: "length (pattern_bytes cfg) = nat (STRUCT_SIZE cfg)"
    using ok by (rule length_pattern_bytes)
  from lo hi S len have "matches_pattern chunk s (pattern_bytes cfg) =
     Inr (\<forall>p < length (pattern_bytes cfg). \<forall>b. pattern_bytes cfg ! p = Some b \<longrightarrow>
            chunk ! nat (s + int p) = b)"
    using matches_from_in_range [of s 0 "pattern_bytes cfg" chunk]
    by (simp add: matches_pattern_def)
  moreover have "(\<forall>p < length (pattern_bytes cfg). \<forall>b. pattern_bytes cfg ! p = Some b \<longrightarrow>
            chunk ! nat (s + int p) = b) \<longleftrightarrow> spec_signature_at cfg chunk s"
  proof
    assume h: "\<forall>p < length (pattern_bytes cfg). \<forall>b. pattern_bytes cfg ! p = Some b \<longrightarrow>
            chunk ! nat (s + int p) = b"
    have "chunk ! nat s = 0x80"
      using h [rule_format, of 0 "0x80"] S len pattern_bytes_nth [OF ok, of 0] by simp
    moreover have "chunk ! nat (s + q) = 0x00"
      if "q \<in> {STRUCT_SIZE cfg - PADDING_LENGTH cfg ..< STRUCT_SIZE cfg}" for q
    proof -
      from that S have q: "0 < q" "q < STRUCT_SIZE cfg" "\<not> q < STRUCT_SIZE cfg - PADDING_LENGTH cfg"
        by auto
      then have "nat q < nat (STRUCT_SIZE cfg)" "nat q \<noteq> 0" "int (nat q) = q" by auto
      with q h [rule_format, of "nat q" "0x00"] len pattern_bytes_nth [OF ok, of "nat q"]
      show ?thesis by simp
    qed
    ultimately show "spec_signature_at cfg chunk s"
      by (simp add: spec_signature_at_def)
  next
    assume sg: "spec_signature_at cfg chunk s"
    show "\<forall>p < length (pattern_bytes cfg). \<forall>b. pattern_bytes cfg ! p = Some b \<longrightarrow>
            chunk ! nat (s + int p) = b"
    proof (intro allI impI)
      fix p b
      assume p: "p < length (pattern_bytes cfg)" and b: "pattern_bytes cfg ! p = Some b"
      from p len have p': "p < nat (STRUCT_SIZE cfg)" by simp
      show "chunk ! nat (s + int p) = b"
      proof (cases "p = 0")
        case True
        with b pattern_bytes_nth [OF ok p'] sg show ?thesis
          by (simp add: spec_signature_at_def)
      next
        case False
        with b pattern_bytes_nth [OF ok p']
        have "\<not> int p < STRUCT_SIZE cfg - PADDING_LENGTH cfg" "b = 0x00"
          by (auto split: if_splits)
        with p' have "int p \<in> {STRUCT_SIZE cfg - PADDING_LENGTH cfg ..< STRUCT_SIZE cfg}"
          by auto
        with sg \<open>b = 0x00\<close> show ?thesis
          by (simp add: spec_signature_at_def)
      qed
    qed
  qed
  ultimately show ?thesis by simp
qed


lemma upto_0_3: "[0 .. 3] = [0, 1, 2, 3 :: int]"
  by (simp add: upto.simps)

lemma four_windows:
  assumes ok: "config_ok cfg"
    and lo: "PRECEDING_ZEROES cfg \<le> i"
    and hi: "i \<le> int (length chunk) - 4 * STRUCT_SIZE cfg"
  shows "all_windows cfg chunk (pattern_bytes cfg) i [0 .. 3] =
           Inr (\<forall>j \<in> {0 ..< 4}. spec_signature_at cfg chunk (i + j * STRUCT_SIZE cfg))"
proof -
  from ok have S: "0 < STRUCT_SIZE cfg" "0 \<le> PRECEDING_ZEROES cfg"
    by (auto simp add: config_ok_def)
  have w: "matches_pattern chunk (i + j * STRUCT_SIZE cfg) (pattern_bytes cfg) =
             Inr (spec_signature_at cfg chunk (i + j * STRUCT_SIZE cfg))"
    if "j \<in> {0, 1, 2, 3}" for j :: int
  proof (rule window_matches_signature [OF ok])
    from that S lo show "0 \<le> i + j * STRUCT_SIZE cfg" by auto
    from that S hi show "i + j * STRUCT_SIZE cfg + STRUCT_SIZE cfg \<le> int (length chunk)"
      by auto
  qed
  have set4: "{0 ..< 4 :: int} = {0, 1, 2, 3}" by auto
  show ?thesis
    unfolding upto_0_3 set4
    using w [of 0] w [of 1] w [of 2] w [of 3] by simp
qed

lemma zero_run_slice:
  assumes lo: "0 \<le> z" "z \<le> i" and hi: "i \<le> int (length chunk)"
  shows "list_ex (\<lambda>b. b \<noteq> 0x00) (py_slice chunk (i - z) i) \<longleftrightarrow>
           \<not> (\<forall>k \<in> {i - z ..< i}. chunk ! nat k = 0x00)"
proof -
  from lo hi have b: "py_bound (length chunk) i = nat i" "py_bound (length chunk) (i - z) = nat (i - z)"
    by (auto simp add: py_bound_def)
  have sl: "py_slice chunk (i - z) i = take (nat z) (drop (nat (i - z)) chunk)"
    using lo hi unfolding py_slice_def b by (simp add: nat_diff_distrib')
  have len: "length (py_slice chunk (i - z) i) = nat z"
    unfolding sl using lo hi by simp
  have nth: "py_slice chunk (i - z) i ! n = chunk ! nat (i - z + int n)" if "n < nat z" for n
    unfolding sl using that lo hi by (simp add: nat_add_distrib)
  show ?thesis
  proof
    assume "list_ex (\<lambda>b. b \<noteq> 0x00) (py_slice chunk (i - z) i)"
    then obtain n where n: "n < nat z" "py_slice chunk (i - z) i ! n \<noteq> 0"
      unfolding list_ex_length len by auto
    then have "i - z + int n \<in> {i - z ..< i}" "chunk ! nat (i - z + int n) \<noteq> 0"
      using nth [of n] by auto
    then show "\<not> (\<forall>k \<in> {i - z ..< i}. chunk ! nat k = 0x00)" by blast
  next
    assume "\<not> (\<forall>k \<in> {i - z ..< i}. chunk ! nat k = 0x00)"
    then obtain k where k: "i - z \<le> k" "k < i" "chunk ! nat k \<noteq> 0" by auto
    define n where "n = nat (k - (i - z))"
    from k have n: "n < nat z" "i - z + int n = k" by (auto simp add: n_def)
    with k nth [of n] have "py_slice chunk (i - z) i ! n \<noteq> 0" by simp
    with n show "list_ex (\<lambda>b. b \<noteq> 0x00) (py_slice chunk (i - z) i)"
      unfolding list_ex_length len by blast
  qed
qed

lemma scan_chunk_find:
  assumes ok: "config_ok cfg"
    and rng: "\<forall>i \<in> set offs. PRECEDING_ZEROES cfg \<le> i \<and> i \<le> int (length chunk) - 4 * STRUCT_SIZE cfg"
  shows "scan_chunk cfg chunk (pattern_bytes cfg) offs = Inr (List.find (spec_table_start cfg chunk) offs)"
  using rng
proof (induction offs)
  case Nil
  show ?case by simp
next
  case (Cons i rest)
  from ok have S: "0 < STRUCT_SIZE cfg" "0 \<le> PRECEDING_ZEROES cfg"
    by (auto simp add: config_ok_def)
  from Cons.prems have i: "PRECEDING_ZEROES cfg \<le> i" "i \<le> int (length chunk) - 4 * STRUCT_SIZE cfg"
    by auto
  with S have "i \<le> int (length chunk)" by auto
  with S i have z: "list_ex (\<lambda>b. b \<noteq> 0x00) (py_slice chunk (i - PRECEDING_ZEROES cfg) i) \<longleftrightarrow>
           \<not> (\<forall>k \<in> {i - PRECEDING_ZEROES cfg ..< i}. chunk ! nat k = 0x00)"
    by (intro zero_run_slice) auto
  have w: "all_windows cfg chunk (pattern_bytes cfg) i [0 .. 3] =
           Inr (\<forall>j \<in> {0 ..< 4}. spec_signature_at cfg chunk (i + j * STRUCT_SIZE cfg))"
    using ok i by (rule four_windows)
  from Cons have ih: "scan_chunk cfg chunk (pattern_bytes cfg) rest =
      Inr (List.find (spec_table_start cfg chunk) rest)" by simp
  have ts: "spec_table_start cfg chunk i \<longleftrightarrow>
      (\<forall>k \<in> {i - PRECEDING_ZEROES cfg ..< i}. chunk ! nat k = 0x00) \<and>
      (\<forall>j \<in> {0 ..< 4}. spec_signature_at cfg chunk (i + j * STRUCT_SIZE cfg))"
    using i by (simp add: spec_table_start_def)
  show ?case
    unfolding scan_chunk.simps z w ih using ts by auto
qed


lemma find_upto_None:
  "List.find P [a .. b] = None \<longleftrightarrow> (\<forall>i. a \<le> i \<and> i \<le> b \<longrightarrow> \<not> P i)"
  by (auto simp add: find_None_iff)

lemma find_upto_Some:
  "List.find P [a .. b] = Some i \<longleftrightarrow>
     a \<le> i \<and> i \<le> b \<and> P i \<and> (\<forall>i'. a \<le> i' \<and> i' < i \<longrightarrow> \<not> P i')"
proof (induction a b rule: upto.induct)
  case (1 a b)
  show ?case
  proof (cases "a \<le> b")
    case False
    then show ?thesis by simp
  next
    case True
    then have u: "[a .. b] = a # [a + 1 .. b]" by (simp add: upto_rec1)
    show ?thesis
    proof (cases "P a")
      case True
      with \<open>a \<le> b\<close> show ?thesis unfolding u by (auto simp add: not_less)
    next
      case False
      from False have "(\<forall>i'. a \<le> i' \<and> i' < i \<longrightarrow> \<not> P i') \<longleftrightarrow>
          (\<forall>i'. a + 1 \<le> i' \<and> i' < i \<longrightarrow> \<not> P i')" for i
        by (metis add1_zle_eq order_le_less)
      moreover from False have "a \<le> i \<and> P i \<longleftrightarrow> a + 1 \<le> i \<and> P i" for i
        by (metis add1_zle_eq order_le_less)
      ultimately show ?thesis
        unfolding u using False 1 [OF \<open>a \<le> b\<close>] by auto
    qed
  qed
qed

lemma scan_chunk_offsets:
  assumes ok: "config_ok cfg"
  shows "scan_chunk cfg chunk (pattern_bytes cfg) (chunk_offsets cfg chunk) =
     Inr (List.find (spec_table_start cfg chunk)
            [PRECEDING_ZEROES cfg .. int (length chunk) - 4 * STRUCT_SIZE cfg])"
proof -
  have eq: "chunk_offsets cfg chunk = [PRECEDING_ZEROES cfg .. int (length chunk) - 4 * STRUCT_SIZE cfg]"
    by (simp add: chunk_offsets_def mult.commute)
  show ?thesis
    unfolding eq by (rule scan_chunk_find [OF ok]) simp
qed

lemma scan_chunk_None:
  assumes ok: "config_ok cfg"
  shows "scan_chunk cfg chunk (pattern_bytes cfg) (chunk_offsets cfg chunk) = Inr None
     \<longleftrightarrow> (\<forall>i. \<not> spec_table_start cfg chunk i)"
  unfolding scan_chunk_offsets [OF ok]
  by (auto simp add: find_upto_None spec_table_start_def)

lemma scan_chunk_Some:
  assumes ok: "config_ok cfg"
  shows "scan_chunk cfg chunk (pattern_bytes cfg) (chunk_offsets cfg chunk) = Inr (Some i)
     \<longleftrightarrow> spec_table_start cfg chunk i \<and> (\<forall>i' < i. \<not> spec_table_start cfg chunk i')"
proof -
  have "(\<forall>i'. PRECEDING_ZEROES cfg \<le> i' \<and> i' < i \<longrightarrow> \<not> spec_table_start cfg chunk i')
     \<longleftrightarrow> (\<forall>i' < i. \<not> spec_table_start cfg chunk i')"
    by (auto simp add: spec_table_start_def)
  then show ?thesis
    unfolding scan_chunk_offsets [OF ok]
    by (auto simp add: find_upto_Some spec_table_start_def)
qed

lemma example_config_ok: "config_ok example_config"
  by (simp add: config_ok_def example_config_def)

text \<open>
  Claim C10. The inner search never leaves the chunk it has read: for every
  offset \<open>i\<close> the loop considers, the slice of preceding zeros starts at a
  non-negative index, the four windows end at \<open>i + 4 * STRUCT_SIZE\<close>, which is
  at most the length of the chunk, and so every index handed to the pattern
  matcher lies inside the buffer; the search therefore never raises
  IndexError. The configuration constants are taken to be well formed.
\<close>

theorem scan_stays_in_chunk:
  assumes ok: "config_ok cfg"
  shows "(\<forall>i \<in> set (chunk_offsets cfg chunk).
            0 \<le> i - PRECEDING_ZEROES cfg \<and> i \<le> int (length chunk) \<and>
            i + 4 * STRUCT_SIZE cfg \<le> int (length chunk) \<and>
            (\<forall>j \<in> {0 ..< 4}. \<forall>p < length (pattern_bytes cfg).
               0 \<le> i + j * STRUCT_SIZE cfg + int p \<and>
               i + j * STRUCT_SIZE cfg + int p < int (length chunk)))
       \<and> (\<exists>r. scan_chunk cfg chunk (pattern_bytes cfg) (chunk_offsets cfg chunk) = Inr r)"
proof (intro conjI ballI allI impI)
  from ok have S: "0 < STRUCT_SIZE cfg" "0 \<le> PRECEDING_ZEROES cfg"
    by (auto simp add: config_ok_def)
  have len: "length (pattern_bytes cfg) = nat (STRUCT_SIZE cfg)"
    using ok by (rule length_pattern_bytes)
  {
    fix i assume "i \<in> set (chunk_offsets cfg chunk)"
    then have i: "PRECEDING_ZEROES cfg \<le> i" "i + 4 * STRUCT_SIZE cfg \<le> int (length chunk)"
      by (auto simp add: chunk_offsets_def)
    from i show "0 \<le> i - PRECEDING_ZEROES cfg" by simp
    from i S show "i \<le> int (length chunk)" by simp
    from i show "i + 4 * STRUCT_SIZE cfg \<le> int (length chunk)" by simp
    fix j :: int and p assume j: "j \<in> {0 ..< 4}" and p: "p < length (pattern_bytes cfg)"
    from j have j4: "j = 0 \<or> j = 1 \<or> j = 2 \<or> j = 3" by auto
    from p len have p': "int p < STRUCT_SIZE cfg" by simp
    from j4 i S show "0 \<le> i + j * STRUCT_SIZE cfg + int p" by auto
    from j4 i S p' show "i + j * STRUCT_SIZE cfg + int p < int (length chunk)" by auto
  }
  show "\<exists>r. scan_chunk cfg chunk (pattern_bytes cfg) (chunk_offsets cfg chunk) = Inr r"
    unfolding scan_chunk_offsets [OF ok] by blast
qed

theorem scan_stays_in_chunk_witness:
  "config_ok example_config
   \<and> 0 \<le> (10 :: int) - PRECEDING_ZEROES example_config
   \<and> (10 :: int) + 3 * STRUCT_SIZE example_config + int 49 < int (length (replicate 210 (0 :: byte)))
   \<and> (\<exists>r. scan_chunk example_config (replicate 210 0) (pattern_bytes example_config)
              (chunk_offsets example_config (replicate 210 0)) = Inr r)"
proof -
  have ok: "config_ok example_config" by (rule example_config_ok)
  have mem: "10 \<in> set (chunk_offsets example_config (replicate 210 (0 :: byte)))"
    by (simp add: chunk_offsets_def example_config_def)
  have len: "49 < length (pattern_bytes example_config)"
    by (simp add: length_pattern_bytes [OF ok]) (simp add: example_config_def)
  from scan_stays_in_chunk [OF ok, of "replicate 210 0"] mem len
  have "0 \<le> (10 :: int) - PRECEDING_ZEROES example_config"
    and "(10 :: int) + 3 * STRUCT_SIZE example_config + int 49 < int (length (replicate 210 (0 :: byte)))"
    and "\<exists>r. scan_chunk example_config (replicate 210 0) (pattern_bytes example_config)
              (chunk_offsets example_config (replicate 210 0)) = Inr r"
    by (blast, force, blast)
  with ok show ?thesis by blast
qed


section \<open>The record locator over the regions\<close>

lemma first_table_unique:
  "spec_first_table cfg p max_address a i \<Longrightarrow> spec_first_table cfg p max_address a i' \<Longrightarrow> i = i'"
  unfolding spec_first_table_def
  by (metis linorder_neqE_linordered_idom option.inject)

lemma first_table_not_none:
  "spec_first_table cfg p max_address a i \<Longrightarrow> \<not> spec_no_table cfg p max_address a"
  unfolding spec_first_table_def spec_no_table_def by blast

lemma scan_region_skip:
  assumes ok: "config_ok cfg" and no: "spec_no_table cfg p max_address a"
  shows "scan_region cfg p (pattern_bytes cfg) max_address a = Continue (next_address p a)"
proof (cases "VirtualQueryEx p a")
  case None
  then show ?thesis by (simp add: scan_region_def next_address_def)
next
  case (Some mbi)
  show ?thesis
  proof (cases "readable_region mbi")
    case False
    with Some show ?thesis by (simp add: scan_region_def next_address_def)
  next
    case True
    show ?thesis
    proof (cases "read_bytes p a (min (int (RegionSize mbi)) (max_address - a))")
      case (Inl e)
      then have "e = MemoryReadError" by (simp add: read_bytes_def split: if_splits)
      with Inl Some True show ?thesis by (simp add: scan_region_def next_address_def)
    next
      case (Inr chunk)
      with Some True have "region_chunk p max_address a = Some chunk"
        by (simp add: region_chunk_def readable_region_def)
      with no have "\<forall>i. \<not> spec_table_start cfg chunk i"
        by (simp add: spec_no_table_def)
      then have "scan_chunk cfg chunk (pattern_bytes cfg) (chunk_offsets cfg chunk) = Inr None"
        by (simp add: scan_chunk_None [OF ok])
      with Inr Some True show ?thesis by (simp add: scan_region_def next_address_def)
    qed
  qed
qed

lemma scan_region_hit:
  assumes ok: "config_ok cfg" and hit: "spec_first_table cfg p max_address a i"
  shows "scan_region cfg p (pattern_bytes cfg) max_address a = Return (a + i)"
proof -
  from hit obtain chunk where c: "region_chunk p max_address a = Some chunk"
    and t: "spec_table_start cfg chunk i" "\<forall>i' < i. \<not> spec_table_start cfg chunk i'"
    by (auto simp add: spec_first_table_def)
  from t have s: "scan_chunk cfg chunk (pattern_bytes cfg) (chunk_offsets cfg chunk) = Inr (Some i)"
    by (simp add: scan_chunk_Some [OF ok])
  from c obtain mbi where q: "VirtualQueryEx p a = Some mbi" "readable_region mbi"
    "read_bytes p a (min (int (RegionSize mbi)) (max_address - a)) = Inr chunk"
    by (auto simp add: region_chunk_def readable_region_def split: option.splits if_splits sum.splits)
  with s show ?thesis by (simp add: scan_region_def)
qed

lemma table_or_not:
  assumes ok: "config_ok cfg"
  shows "spec_no_table cfg p max_address a \<or> (\<exists>i. spec_first_table cfg p max_address a i)"
proof (cases "region_chunk p max_address a")
  case None
  then show ?thesis by (simp add: spec_no_table_def)
next
  case (Some chunk)
  from scan_chunk_offsets [OF ok, of chunk]
  obtain r where r: "scan_chunk cfg chunk (pattern_bytes cfg) (chunk_offsets cfg chunk) = Inr r"
    by blast
  show ?thesis
  proof (cases r)
    case None
    with r have "\<forall>i. \<not> spec_table_start cfg chunk i" by (simp add: scan_chunk_None [OF ok])
    with Some show ?thesis by (simp add: spec_no_table_def)
  next
    case (Some i)
    with r have "spec_table_start cfg chunk i \<and> (\<forall>i' < i. \<not> spec_table_start cfg chunk i')"
      by (simp add: scan_chunk_Some [OF ok])
    with \<open>region_chunk p max_address a = Some chunk\<close> show ?thesis
      by (auto simp add: spec_first_table_def)
  qed
qed


lemma cursor_0: "cursor p a 0 = a"
  by (simp add: cursor_def)

lemma cursor_Suc: "cursor p a (Suc k) = next_address p (cursor p a k)"
  by (simp add: cursor_def)

lemma cursor_Suc_shift: "cursor p a (Suc k) = cursor p (next_address p a) k"
  by (simp add: cursor_def funpow_swap1)

lemma scan_regions_skip:
  assumes ok: "config_ok cfg" and lt: "a < max_address"
    and no: "spec_no_table cfg p max_address a"
  shows "scan_regions cfg p (pattern_bytes cfg) max_address a =
         scan_regions cfg p (pattern_bytes cfg) max_address (next_address p a)"
  by (subst scan_regions.simps) (simp add: lt scan_region_skip [OF ok no])

lemma scan_regions_hit:
  assumes ok: "config_ok cfg" and lt: "a < max_address"
    and hit: "spec_first_table cfg p max_address a i"
  shows "scan_regions cfg p (pattern_bytes cfg) max_address a = Some (Inr (Some (a + i)))"
  by (subst scan_regions.simps) (simp add: lt scan_region_hit [OF ok hit])

lemma scan_regions_done:
  "max_address \<le> a \<Longrightarrow> scan_regions cfg p pat max_address a = Some (Inr None)"
  by (subst scan_regions.simps) simp

lemma scan_regions_walk:
  assumes ok: "config_ok cfg"
  shows "(\<forall>m < k. cursor p a m < max_address \<and> spec_no_table cfg p max_address (cursor p a m)) \<Longrightarrow>
     scan_regions cfg p (pattern_bytes cfg) max_address a =
     scan_regions cfg p (pattern_bytes cfg) max_address (cursor p a k)"
proof (induction k)
  case 0
  show ?case by (simp add: cursor_0)
next
  case (Suc k)
  then have "scan_regions cfg p (pattern_bytes cfg) max_address a =
     scan_regions cfg p (pattern_bytes cfg) max_address (cursor p a k)" by simp
  also from Suc.prems have "\<dots> = scan_regions cfg p (pattern_bytes cfg) max_address
       (next_address p (cursor p a k))"
    by (intro scan_regions_skip [OF ok]) auto
  finally show ?case by (simp add: cursor_Suc)
qed

lemma walk_result_step:
  assumes lt: "a < max_address" and no: "spec_no_table cfg p max_address a"
    and w: "walk_result cfg p max_address (next_address p a) y"
  shows "walk_result cfg p max_address a y"
proof -
  from w obtain k where
    k: "\<forall>m < k. cursor p (next_address p a) m < max_address \<and>
           spec_no_table cfg p max_address (cursor p (next_address p a) m)"
    and e: "max_address \<le> cursor p (next_address p a) k \<and> y = Inr None \<or>
         cursor p (next_address p a) k < max_address \<and>
           (\<exists>i. spec_first_table cfg p max_address (cursor p (next_address p a) k) i \<and>
                 y = Inr (Some (cursor p (next_address p a) k + i)))"
    unfolding walk_result_def by blast
  have "\<forall>m < Suc k. cursor p a m < max_address \<and> spec_no_table cfg p max_address (cursor p a m)"
  proof (intro allI impI)
    fix m assume "m < Suc k"
    show "cursor p a m < max_address \<and> spec_no_table cfg p max_address (cursor p a m)"
    proof (cases m)
      case 0
      with lt no show ?thesis by (simp add: cursor_0)
    next
      case (Suc m')
      with \<open>m < Suc k\<close> k show ?thesis by (simp add: cursor_Suc_shift)
    qed
  qed
  with e show ?thesis
    unfolding walk_result_def cursor_Suc_shift [symmetric] by blast
qed

lemma scan_regions_sound:
  assumes run: "scan_regions cfg p pat max_address a = Some y"
  shows "config_ok cfg \<longrightarrow> pat = pattern_bytes cfg \<longrightarrow> walk_result cfg p max_address a y"
proof (rule scan_regions.raw_induct
    [where P = "\<lambda>cfg p pat max_address a y.
        config_ok cfg \<longrightarrow> pat = pattern_bytes cfg \<longrightarrow> walk_result cfg p max_address a y",
     OF _ run], goal_cases)
  case (1 f cfg p pat max_address a y)
  show ?case
  proof (intro impI)
    assume ok: "config_ok cfg" and pat: "pat = pattern_bytes cfg"
    show "walk_result cfg p max_address a y"
    proof (cases "a < max_address")
      case False
      with 1(2) have "y = Inr None" by simp
      with False show ?thesis
        unfolding walk_result_def by (intro exI [of _ 0]) (simp add: cursor_0)
    next
      case True
      from table_or_not [OF ok, of p max_address a] show ?thesis
      proof
        assume no: "spec_no_table cfg p max_address a"
        with 1(2) True pat have "f cfg p pat max_address (next_address p a) = Some y"
          by (simp add: scan_region_skip [OF ok no])
        then have "config_ok cfg \<longrightarrow> pat = pattern_bytes cfg \<longrightarrow>
            walk_result cfg p max_address (next_address p a) y"
          by (rule 1(1))
        with ok pat have "walk_result cfg p max_address (next_address p a) y" by blast
        with True no show ?thesis by (rule walk_result_step)
      next
        assume "\<exists>i. spec_first_table cfg p max_address a i"
        then obtain i where hit: "spec_first_table cfg p max_address a i" ..
        with 1(2) True pat have "y = Inr (Some (a + i))"
          by (simp add: scan_region_hit [OF ok hit])
        with True hit show ?thesis
          unfolding walk_result_def by (intro exI [of _ 0]) (auto simp add: cursor_0)
      qed
    qed
  qed
qed

lemma scan_regions_complete:
  assumes ok: "config_ok cfg" and w: "walk_result cfg p max_address a y"
  shows "scan_regions cfg p (pattern_bytes cfg) max_address a = Some y"
proof -
  from w obtain k where
    k: "\<forall>m < k. cursor p a m < max_address \<and> spec_no_table cfg p max_address (cursor p a m)"
    and e: "max_address \<le> cursor p a k \<and> y = Inr None \<or>
         cursor p a k < max_address \<and>
           (\<exists>i. spec_first_table cfg p max_address (cursor p a k) i \<and>
                 y = Inr (Some (cursor p a k + i)))"
    unfolding walk_result_def by blast
  have "scan_regions cfg p (pattern_bytes cfg) max_address a =
        scan_regions cfg p (pattern_bytes cfg) max_address (cursor p a k)"
    using k by (rule scan_regions_walk [OF ok])
  also from e have "\<dots> = Some y"
    by (auto simp add: scan_regions_done scan_regions_hit [OF ok])
  finally show ?thesis .
qed

lemma scan_regions_iff:
  assumes ok: "config_ok cfg"
  shows "scan_regions cfg p (pattern_bytes cfg) max_address a = Some y
         \<longleftrightarrow> walk_result cfg p max_address a y"
proof
  assume "scan_regions cfg p (pattern_bytes cfg) max_address a = Some y"
  from scan_regions_sound [OF this] ok show "walk_result cfg p max_address a y" by simp
next
  assume "walk_result cfg p max_address a y"
  with ok show "scan_regions cfg p (pattern_bytes cfg) max_address a = Some y"
    by (rule scan_regions_complete)
qed


lemma signature_shift:
  assumes sg: "spec_signature_at cfg r 0" and ok: "config_ok cfg"
    and s: "0 \<le> s"
    and cp: "\<forall>q < nat (STRUCT_SIZE cfg). chunk ! (nat s + q) = r ! q"
  shows "spec_signature_at cfg chunk s"
proof -
  from ok have S: "0 < STRUCT_SIZE cfg" "0 \<le> PADDING_LENGTH cfg" "PADDING_LENGTH cfg < STRUCT_SIZE cfg"
    by (auto simp add: config_ok_def)
  from cp [rule_format, of 0] S sg have "chunk ! nat s = 0x80"
    by (simp add: spec_signature_at_def)
  moreover have "chunk ! nat (s + q) = 0x00"
    if q: "q \<in> {STRUCT_SIZE cfg - PADDING_LENGTH cfg ..< STRUCT_SIZE cfg}" for q
  proof -
    from q S have q': "0 \<le> q" "nat q < nat (STRUCT_SIZE cfg)" by auto
    with s have "nat (s + q) = nat s + nat q" by (simp add: nat_add_distrib)
    with cp [rule_format, of "nat q"] q' have "chunk ! nat (s + q) = r ! nat q" by simp
    with sg q show ?thesis by (simp add: spec_signature_at_def)
  qed
  ultimately show ?thesis by (simp add: spec_signature_at_def)
qed

lemma synthetic_table_start:
  assumes ok: "config_ok cfg"
    and recs: "\<forall>r \<in> {r1, r2, r3, r4}. length r = nat (STRUCT_SIZE cfg) \<and>
                 matches_pattern r 0 (pattern_bytes cfg) = Inr True"
  shows "spec_table_start cfg
           (replicate (nat (PRECEDING_ZEROES cfg)) 0x00 @ r1 @ r2 @ r3 @ r4 @ rest)
           (PRECEDING_ZEROES cfg)"
proof -
  let ?z = "nat (PRECEDING_ZEROES cfg)" and ?n = "nat (STRUCT_SIZE cfg)"
  let ?chunk = "replicate ?z 0x00 @ r1 @ r2 @ r3 @ r4 @ rest"
  from ok have S: "0 < STRUCT_SIZE cfg" "0 \<le> PRECEDING_ZEROES cfg"
    by (auto simp add: config_ok_def)
  from recs have len: "length r1 = ?n" "length r2 = ?n" "length r3 = ?n" "length r4 = ?n"
    by auto
  have sg: "spec_signature_at cfg r 0" if "r \<in> {r1, r2, r3, r4}" for r
  proof -
    from that recs have "length r = ?n" "matches_pattern r 0 (pattern_bytes cfg) = Inr True"
      by auto
    with window_matches_signature [OF ok, of 0 r] S show ?thesis by simp
  qed
  have n1: "?chunk ! (?z + q) = r1 ! q" if "q < ?n" for q
    using that len by (simp add: nth_append)
  have n2: "?chunk ! (?z + ?n + q) = r2 ! q" if "q < ?n" for q
    using that len by (simp add: nth_append)
  have n3: "?chunk ! (?z + ?n + ?n + q) = r3 ! q" if "q < ?n" for q
    using that len by (simp add: nth_append)
  have n4: "?chunk ! (?z + ?n + ?n + ?n + q) = r4 ! q" if "q < ?n" for q
    using that len by (simp add: nth_append)
  have a0: "nat (PRECEDING_ZEROES cfg + 0 * STRUCT_SIZE cfg) = ?z" by simp
  have a1: "nat (PRECEDING_ZEROES cfg + 1 * STRUCT_SIZE cfg) = ?z + ?n"
    using S by (simp add: nat_add_distrib)
  have a2: "nat (PRECEDING_ZEROES cfg + 2 * STRUCT_SIZE cfg) = ?z + ?n + ?n"
    using S by (simp add: nat_add_distrib)
  have a3: "nat (PRECEDING_ZEROES cfg + 3 * STRUCT_SIZE cfg) = ?z + ?n + ?n + ?n"
    using S by (simp add: nat_add_distrib)
  have w0: "spec_signature_at cfg ?chunk (PRECEDING_ZEROES cfg + 0 * STRUCT_SIZE cfg)"
    by (rule signature_shift [OF sg [of r1] ok]) (use S n1 in \<open>simp_all only: a0\<close>, simp_all)
  have w1: "spec_signature_at cfg ?chunk (PRECEDING_ZEROES cfg + 1 * STRUCT_SIZE cfg)"
    by (rule signature_shift [OF sg [of r2] ok]) (use S n2 in \<open>simp_all only: a1\<close>, simp_all)
  have w2: "spec_signature_at cfg ?chunk (PRECEDING_ZEROES cfg + 2 * STRUCT_SIZE cfg)"
    by (rule signature_shift [OF sg [of r3] ok]) (use S n3 in \<open>simp_all only: a2\<close>, simp_all)
  have w3: "spec_signature_at cfg ?chunk (PRECEDING_ZEROES cfg + 3 * STRUCT_SIZE cfg)"
    by (rule signature_shift [OF sg [of r4] ok]) (use S n4 in \<open>simp_all only: a3\<close>, simp_all)
  have set4: "{0 ..< 4 :: int} = {0, 1, 2, 3}" by auto
  have win: "\<forall>j \<in> {0 ..< 4}. spec_signature_at cfg ?chunk (PRECEDING_ZEROES cfg + j * STRUCT_SIZE cfg)"
    unfolding set4 using w0 w1 w2 w3 by simp
  have zeros: "\<forall>k \<in> {PRECEDING_ZEROES cfg - PRECEDING_ZEROES cfg ..< PRECEDING_ZEROES cfg}.
                  ?chunk ! nat k = 0x00"
    by (auto simp add: nth_append)
  have rng: "PRECEDING_ZEROES cfg \<le> int (length ?chunk) - 4 * STRUCT_SIZE cfg"
    using S len by simp
  from win zeros rng show ?thesis
    unfolding spec_table_start_def by blast
qed


lemma find_first_attached:
  "pm gp = Some p \<Longrightarrow>
   find_first_character_address cfg gp =
     scan_regions cfg p (pattern_bytes cfg) (lpMaximumApplicationAddress p) (scan_start cfg)"
  by (simp add: find_first_character_address_def ensure_attached_def get_memory_bounds_def
      scan_start_def)

lemma first_table_in_synthetic:
  assumes ok: "config_ok cfg"
    and c: "region_chunk p max_address a =
              Some (replicate (nat (PRECEDING_ZEROES cfg)) 0x00 @ r1 @ r2 @ r3 @ r4 @ rest)"
    and recs: "\<forall>r \<in> {r1, r2, r3, r4}. length r = nat (STRUCT_SIZE cfg) \<and>
                 matches_pattern r 0 (pattern_bytes cfg) = Inr True"
  shows "spec_first_table cfg p max_address a (PRECEDING_ZEROES cfg)"
proof -
  have "spec_table_start cfg
           (replicate (nat (PRECEDING_ZEROES cfg)) 0x00 @ r1 @ r2 @ r3 @ r4 @ rest)
           (PRECEDING_ZEROES cfg)"
    using ok recs by (rule synthetic_table_start)
  moreover have "\<forall>i' < PRECEDING_ZEROES cfg. \<not> spec_table_start cfg
           (replicate (nat (PRECEDING_ZEROES cfg)) 0x00 @ r1 @ r2 @ r3 @ r4 @ rest) i'"
    by (simp add: spec_table_start_def)
  ultimately show ?thesis
    unfolding spec_first_table_def using c by blast
qed

lemma read_bytes_image:
  assumes "\<forall>k < length xs. memory p (a + int k) = Some (xs ! k)"
  shows "read_bytes p a (int (length xs)) = Inr xs"
proof -
  have all: "list_all (\<lambda>a'. memory p a' \<noteq> None) [a .. a + int (length xs) - 1]"
    unfolding list_all_iff
  proof
    fix a' assume "a' \<in> set [a .. a + int (length xs) - 1]"
    then have "nat (a' - a) < length xs" "a + int (nat (a' - a)) = a'" by auto
    with assms [rule_format, of "nat (a' - a)"] show "memory p a' \<noteq> None" by simp
  qed
  have "map (\<lambda>a'. the (memory p a')) [a .. a + int (length xs) - 1] = xs"
  proof (rule nth_equalityI)
    show "length (map (\<lambda>a'. the (memory p a')) [a .. a + int (length xs) - 1]) = length xs"
      by simp
    fix k assume "k < length (map (\<lambda>a'. the (memory p a')) [a .. a + int (length xs) - 1])"
    then have k: "k < length xs" by simp
    then have "[a .. a + int (length xs) - 1] ! k = a + int k" by (simp add: nth_upto)
    with k assms show "map (\<lambda>a'. the (memory p a')) [a .. a + int (length xs) - 1] ! k = xs ! k"
      by simp
  qed
  with all show ?thesis by (simp add: read_bytes_def)
qed

lemma length_table_bytes: "length table_bytes = 300"
  by (simp add: table_bytes_def record_bytes_def)

lemma table_region_chunk: "region_chunk table_process 65536 0 = Some table_bytes"
proof -
  have "read_bytes table_process 0 (int (length table_bytes)) = Inr table_bytes"
    by (rule read_bytes_image) (simp add: table_process_def length_table_bytes)
  then show ?thesis
    by (simp add: region_chunk_def table_process_def length_table_bytes)
qed

lemma record_bytes_signature:
  "matches_pattern record_bytes 0 (pattern_bytes example_config) = Inr True"
proof -
  have "spec_signature_at example_config record_bytes 0"
    by (auto simp add: spec_signature_at_def example_config_def record_bytes_def nth_append nth_Cons')
  with window_matches_signature [OF example_config_ok, of 0 record_bytes] show ?thesis
    by (simp add: example_config_def record_bytes_def)
qed

text \<open>
  Claim C1. On an attached process, \<open>find_first_character_address\<close> walks the
  regions from the start address in the order of the cursor and returns
  \<open>region_base + i\<close> for the first offset \<open>i\<close> (offsets ascending within a chunk,
  from \<open>PRECEDING_ZEROES\<close> to \<open>len - 4 * STRUCT_SIZE\<close>) of the first readable
  region whose \<open>PRECEDING_ZEROES\<close> bytes before \<open>i\<close> are zero and whose four
  record-sized windows from \<open>i\<close> match the signature; \<open>region_base\<close> is the
  cursor at which the region was queried and read. It returns None exactly
  when the cursor reaches the maximum address without any region holding such
  an offset, and it raises nothing. For a buffer of \<open>PRECEDING_ZEROES\<close> zero
  bytes followed by four signature-matching records it returns the address
  right after the zero run.
\<close>

theorem find_first_character_address_spec:
  assumes ok: "config_ok cfg" and att: "pm gp = Some p"
  shows
    "(find_first_character_address cfg gp = Some (Inr (Some r)) \<longleftrightarrow>
        (\<exists>k i.
           (\<forall>m < k. cursor p (scan_start cfg) m < lpMaximumApplicationAddress p \<and>
                    spec_no_table cfg p (lpMaximumApplicationAddress p) (cursor p (scan_start cfg) m)) \<and>
           cursor p (scan_start cfg) k < lpMaximumApplicationAddress p \<and>
           spec_first_table cfg p (lpMaximumApplicationAddress p) (cursor p (scan_start cfg) k) i \<and>
           r = cursor p (scan_start cfg) k + i))
     \<and> (find_first_character_address cfg gp = Some (Inr None) \<longleftrightarrow>
        (\<exists>k.
           (\<forall>m < k. cursor p (scan_start cfg) m < lpMaximumApplicationAddress p \<and>
                    spec_no_table cfg p (lpMaximumApplicationAddress p) (cursor p (scan_start cfg) m)) \<and>
           lpMaximumApplicationAddress p \<le> cursor p (scan_start cfg) k))
     \<and> (\<forall>e. find_first_character_address cfg gp \<noteq> Some (Inl e))
     \<and> (\<forall>r1 r2 r3 r4 rest.
          scan_start cfg < lpMaximumApplicationAddress p \<and>
          region_chunk p (lpMaximumApplicationAddress p) (scan_start cfg) =
            Some (replicate (nat (PRECEDING_ZEROES cfg)) 0x00 @ r1 @ r2 @ r3 @ r4 @ rest) \<and>
          (\<forall>r \<in> {r1, r2, r3, r4}. length r = nat (STRUCT_SIZE cfg) \<and>
                 matches_pattern r 0 (pattern_bytes cfg) = Inr True)
          \<longrightarrow> find_first_character_address cfg gp =
                Some (Inr (Some (scan_start cfg + PRECEDING_ZEROES cfg))))"
proof -
  let ?max = "lpMaximumApplicationAddress p" and ?s = "scan_start cfg"
  have ff: "find_first_character_address cfg gp = Some y \<longleftrightarrow> walk_result cfg p ?max ?s y" for y
    unfolding find_first_attached [OF att] by (rule scan_regions_iff [OF ok])
  have a: "find_first_character_address cfg gp = Some (Inr (Some r)) \<longleftrightarrow>
        (\<exists>k i. (\<forall>m < k. cursor p ?s m < ?max \<and> spec_no_table cfg p ?max (cursor p ?s m)) \<and>
           cursor p ?s k < ?max \<and> spec_first_table cfg p ?max (cursor p ?s k) i \<and>
           r = cursor p ?s k + i)"
    unfolding ff walk_result_def by auto
  have b: "find_first_character_address cfg gp = Some (Inr None) \<longleftrightarrow>
        (\<exists>k. (\<forall>m < k. cursor p ?s m < ?max \<and> spec_no_table cfg p ?max (cursor p ?s m)) \<and>
           ?max \<le> cursor p ?s k)"
    unfolding ff walk_result_def by auto
  have c: "\<forall>e. find_first_character_address cfg gp \<noteq> Some (Inl e)"
    unfolding ff walk_result_def by auto
  have d: "find_first_character_address cfg gp = Some (Inr (Some (?s + PRECEDING_ZEROES cfg)))"
    if "?s < ?max"
      and "region_chunk p ?max ?s = Some (replicate (nat (PRECEDING_ZEROES cfg)) 0x00 @ r1 @ r2 @ r3 @ r4 @ rest)"
      and "\<forall>r \<in> {r1, r2, r3, r4}. length r = nat (STRUCT_SIZE cfg) \<and>
                 matches_pattern r 0 (pattern_bytes cfg) = Inr True"
    for r1 r2 r3 r4 rest
  proof -
    from ok that(2,3) have "spec_first_table cfg p ?max ?s (PRECEDING_ZEROES cfg)"
      by (rule first_table_in_synthetic)
    with ok that(1) show ?thesis
      unfolding find_first_attached [OF att] by (rule scan_regions_hit)
  qed
  from a b c d show ?thesis by blast
qed


theorem find_first_character_address_spec_witness:
  "find_first_character_address example_config table_game = Some (Inr (Some 10))
   \<and> find_first_character_address example_config ones_game = Some (Inr None)"
proof -
  have att: "pm table_game = Some table_process" by (simp add: table_game_def)
  have start: "scan_start example_config = 0" "PRECEDING_ZEROES example_config = 10"
    "STRUCT_SIZE example_config = 50"
    by (simp_all add: scan_start_def example_config_def)
  have mx: "lpMaximumApplicationAddress table_process = 65536" by (simp add: table_process_def)
  have tb: "table_bytes = replicate (nat 10) 0x00 @ record_bytes @ record_bytes @ record_bytes
              @ record_bytes @ (0x42 # replicate 89 0x00)"
    by (simp add: table_bytes_def)
  have len: "length record_bytes = nat 50" by (simp add: record_bytes_def)
  from find_first_character_address_spec [OF example_config_ok att, of 0,
      THEN conjunct2, THEN conjunct2, THEN conjunct2, rule_format,
      of record_bytes record_bytes record_bytes record_bytes "0x42 # replicate 89 0x00"]
  have 1: "find_first_character_address example_config table_game = Some (Inr (Some 10))"
    unfolding start mx using table_region_chunk tb len record_bytes_signature by simp
  have att1: "pm ones_game = Some ones_process" by (simp add: ones_game_def)
  have mx1: "lpMaximumApplicationAddress ones_process = 4096" by (simp add: ones_process_def)
  have no: "spec_no_table example_config ones_process 4096 0"
    by (simp add: spec_no_table_def region_chunk_def ones_process_def)
  have c1: "cursor ones_process 0 (Suc 0) = 4096"
    by (simp add: cursor_def next_address_def ones_process_def)
  have "\<exists>k. (\<forall>m < k. cursor ones_process 0 m < 4096 \<and>
                 spec_no_table example_config ones_process 4096 (cursor ones_process 0 m)) \<and>
             4096 \<le> cursor ones_process 0 k"
    by (rule exI [of _ "Suc 0"]) (simp add: c1 cursor_0 no)
  with find_first_character_address_spec [OF example_config_ok att1, of 0]
  have 2: "find_first_character_address example_config ones_game = Some (Inr None)"
    unfolding start mx1 by blast
  from 1 2 show ?thesis ..
qed


end
